theory Spec2Isabelle
  imports Complex_Main
begin

section \<open>JavaScript strings and regular expressions\<close>

text \<open>
  A JavaScript string is a sequence of UTF-16 code units. The model uses \<open>string\<close>
  (a list of \<open>char\<close>) and reads a \<open>char\<close> as the code unit of the same number, so it
  covers the strings whose code units are below 256 (ASCII and Latin-1). The string
  primitives below follow ECMAScript on that range.
\<close>

definition code :: "char \<Rightarrow> nat" where
  "code c = of_char c"

text \<open>The class \<open>\s\<close> of a regular expression, which is also what \<open>trim\<close> removes:
  tab, line feed, vertical tab, form feed, carriage return, space, no-break space.\<close>

definition isWhiteSpace :: "char \<Rightarrow> bool" where
  "isWhiteSpace c = (code c = 9 \<or> code c = 10 \<or> code c = 11 \<or> code c = 12
     \<or> code c = 13 \<or> code c = 32 \<or> code c = 160)"

definition isUpperAZ :: "char \<Rightarrow> bool" where
  "isUpperAZ c = (65 \<le> code c \<and> code c \<le> 90)"

definition isDigit :: "char \<Rightarrow> bool" where
  "isDigit c = (48 \<le> code c \<and> code c \<le> 57)"

text \<open>The class \<open>.\<close>: every code unit but the line terminators.\<close>

definition isDot :: "char \<Rightarrow> bool" where
  "isDot c = (code c \<noteq> 10 \<and> code c \<noteq> 13)"

definition lowerChar :: "char \<Rightarrow> char" where
  "lowerChar c = (if (65 \<le> code c \<and> code c \<le> 90)
       \<or> (192 \<le> code c \<and> code c \<le> 222 \<and> code c \<noteq> 215)
     then char_of (code c + 32) else c)"

definition toLowerCase :: "string \<Rightarrow> string" where
  "toLowerCase s = map lowerChar s"

text \<open>
  Canonicalisation of a code unit under the flag \<open>i\<close> (without \<open>u\<close>): the upper-case
  form when it is a single code unit. The two Latin-1 letters whose upper-case form lies
  beyond 255 (\<open>0xB5\<close>, \<open>0xFF\<close>) are equivalent to no other code unit of the range and are
  kept as they are.
\<close>

definition canonicalize :: "char \<Rightarrow> char" where
  "canonicalize c = (if (97 \<le> code c \<and> code c \<le> 122)
       \<or> (224 \<le> code c \<and> code c \<le> 254 \<and> code c \<noteq> 247)
     then char_of (code c - 32) else c)"

definition trim :: "string \<Rightarrow> string" where
  "trim s = rev (dropWhile isWhiteSpace (rev (dropWhile isWhiteSpace s)))"

definition startsWith :: "string \<Rightarrow> string \<Rightarrow> bool" where
  "startsWith s w = (take (length w) s = w)"

fun includesStr :: "string \<Rightarrow> string \<Rightarrow> bool" where
  "includesStr [] w = (w = [])"
| "includesStr (c # cs) w = (startsWith (c # cs) w \<or> includesStr cs w)"

text \<open>\<open>s.slice(start, end)\<close> and \<open>s.slice(start)\<close>: a negative index counts from the
  end, and both are clamped to the string.\<close>

definition relIndex :: "nat \<Rightarrow> int \<Rightarrow> nat" where
  "relIndex len i = (if i < 0 then nat (max (int len + i) 0) else min (nat i) len)"

definition slice :: "string \<Rightarrow> int \<Rightarrow> int \<Rightarrow> string" where
  "slice s start stop = (let i = relIndex (length s) start; j = relIndex (length s) stop
     in take (j - i) (drop i s))"

definition sliceFrom :: "string \<Rightarrow> int \<Rightarrow> string" where
  "sliceFrom s start = drop (relIndex (length s) start) s"

text \<open>\<open>s.indexOf(w, from)\<close>: the first index at or after \<open>start\<close> where \<open>w\<close> occurs,
  \<open>-1\<close> when there is none. \<open>indexOfAt\<close> searches the suffix that starts at index
  \<open>i\<close>.\<close>

fun indexOfAt :: "string \<Rightarrow> string \<Rightarrow> nat \<Rightarrow> int" where
  "indexOfAt [] w i = (if w = [] then int i else - 1)"
| "indexOfAt (c # cs) w i = (if startsWith (c # cs) w then int i else indexOfAt cs w (Suc i))"

definition indexOf :: "string \<Rightarrow> string \<Rightarrow> int \<Rightarrow> int" where
  "indexOf s w start = (let k = min (nat (max start 0)) (length s) in indexOfAt (drop k s) w k)"

subsection \<open>Regular expressions\<close>

text \<open>
  Every regular expression of the code is a sequence of quantified character classes:
  an item is a class with the least and the greatest number of repetitions (\<open>None\<close>:
  unbounded), all quantifiers greedy. \<open>matchItems r s\<close> is the backtracking match of
  \<open>r\<close> at the start of \<open>s\<close>: an item first takes as many code units as it can and gives
  them back one at a time while the rest of the expression fails. The result is the
  length of the match.
\<close>

datatype item = Item "char \<Rightarrow> bool" nat "nat option"

type_synonym regex = "item list"

fun firstSome :: "(nat \<Rightarrow> nat option) \<Rightarrow> nat list \<Rightarrow> nat option" where
  "firstSome f [] = None"
| "firstSome f (k # ks) = (case f k of Some n \<Rightarrow> Some n | None \<Rightarrow> firstSome f ks)"

definition maxRun :: "item \<Rightarrow> string \<Rightarrow> nat" where
  "maxRun it s = (case it of Item cls lo hi \<Rightarrow>
     (case hi of None \<Rightarrow> length (takeWhile cls s)
               | Some h \<Rightarrow> min h (length (takeWhile cls s))))"

definition minRun :: "item \<Rightarrow> nat" where
  "minRun it = (case it of Item cls lo hi \<Rightarrow> lo)"

primrec matchItems :: "regex \<Rightarrow> string \<Rightarrow> nat option" where
  "matchItems [] s = Some 0"
| "matchItems (it # rest) s =
     firstSome (\<lambda>k. map_option (\<lambda>n. k + n) (matchItems rest (drop k s)))
       (rev [minRun it ..< Suc (maxRun it s)])"

text \<open>\<open>r.test(s)\<close> for a regular expression without the flag \<open>g\<close>: is there a match
  at some index of \<open>s\<close>, the end included.\<close>

fun regexTest :: "regex \<Rightarrow> string \<Rightarrow> bool" where
  "regexTest r [] = (matchItems r [] \<noteq> None)"
| "regexTest r (c # cs) = (matchItems r (c # cs) \<noteq> None \<or> regexTest r cs)"

text \<open>
  \<open>s.match(r)\<close> for a regular expression with the flag \<open>g\<close>: all matches from left to
  right, each search starting where the last match ended (one further after an empty
  match); \<open>null\<close> (\<open>None\<close>) when there is no match. \<open>scanMatches r k s\<close> skips \<open>k\<close> code
  units that belong to the last match and then searches on.
\<close>

fun scanMatches :: "regex \<Rightarrow> nat \<Rightarrow> string \<Rightarrow> string list" where
  "scanMatches r k [] =
     (if k = 0 then (case matchItems r [] of Some n \<Rightarrow> [[]] | None \<Rightarrow> []) else [])"
| "scanMatches r k (c # cs) =
     (if 0 < k then scanMatches r (k - 1) cs
      else (case matchItems r (c # cs) of
              None \<Rightarrow> scanMatches r 0 cs
            | Some n \<Rightarrow> take n (c # cs) # scanMatches r (n - 1) cs))"

definition matchAll :: "regex \<Rightarrow> string \<Rightarrow> string list option" where
  "matchAll r s = (case scanMatches r 0 s of [] \<Rightarrow> None | m # ms \<Rightarrow> Some (m # ms))"

text \<open>
  \<open>s.split(r)\<close>: the pieces of \<open>s\<close> between the matches of \<open>r\<close>. \<open>splitLoop r acc k s\<close>
  holds the piece read so far in \<open>acc\<close> and skips \<open>k\<close> code units of the last match. An
  empty match at the start of a piece is passed over.
\<close>

fun splitLoop :: "regex \<Rightarrow> string \<Rightarrow> nat \<Rightarrow> string \<Rightarrow> string list" where
  "splitLoop r acc k [] = [acc]"
| "splitLoop r acc k (c # cs) =
     (if 0 < k then splitLoop r acc (k - 1) cs
      else (case matchItems r (c # cs) of
              None \<Rightarrow> splitLoop r (acc @ [c]) 0 cs
            | Some n \<Rightarrow>
                if n = 0 then (if acc = [] then splitLoop r [c] 0 cs
                               else acc # splitLoop r [c] 0 cs)
                else acc # splitLoop r [] (n - 1) cs))"

definition split :: "regex \<Rightarrow> string \<Rightarrow> string list" where
  "split r s = (if s = [] then (case matchItems r [] of Some n \<Rightarrow> [] | None \<Rightarrow> [[]])
     else splitLoop r [] 0 s)"

text \<open>The items of the expressions that occur in the code.\<close>

definition one :: "(char \<Rightarrow> bool) \<Rightarrow> item" where
  "one cls = Item cls 1 (Some 1)"

definition star :: "(char \<Rightarrow> bool) \<Rightarrow> item" where
  "star cls = Item cls 0 None"

definition plus :: "(char \<Rightarrow> bool) \<Rightarrow> item" where
  "plus cls = Item cls 1 None"

definition lit :: "char \<Rightarrow> item" where
  "lit c = one (\<lambda>x. x = c)"

text \<open>A literal word under the flag \<open>i\<close>.\<close>

definition litCI :: "string \<Rightarrow> regex" where
  "litCI w = map (\<lambda>c. one (\<lambda>x. canonicalize x = canonicalize c)) w"

definition newline :: char where
  "newline = CHR 0x0A"

section \<open>SmartContentProcessor\<close>

text \<open>
  A chunk object. \<open>chunkType\<close> is the field \<open>type\<close>; it and the two length fields are
  absent (\<open>None\<close>) until the code sets them.
\<close>

datatype chunkKind = SectionChunk | ParagraphChunk

record chunk =
  content :: string
  relevance :: real
  chunkType :: "chunkKind option"
  originalLength :: "nat option"
  enhancedLength :: "nat option"

definition maxChunkSize :: nat where
  "maxChunkSize = 25000"

definition overlapSize :: nat where
  "overlapSize = 1000"

subsection \<open>calculateRelevance\<close>

definition disclaimerPatterns :: "string list" where
  "disclaimerPatterns = [''disclaimer'', ''legal'', ''forward-looking'', ''cautionary'',
     ''moderator'', ''introduction'', ''opening remarks'',
     ''apologize'', ''notice'', ''standard'', ''portion'']"

definition businessPatterns :: "string list" where
  "businessPatterns = [''revenue'', ''earnings'', ''profit'', ''growth'', ''financial'',
     ''quarter'', ''performance'', ''strategy'', ''initiative'',
     ''business'', ''operational'', ''market'', ''segment'',
     ''medical'', ''health'', ''care'', ''provider'', ''network'',
     ''utilization'', ''quality'', ''satisfaction'', ''investment'']"

text \<open>The expression \<open>/\s+/\<close> that splits the query into words.\<close>

definition whitespaceRun :: regex where
  "whitespaceRun = [plus isWhiteSpace]"

text \<open>How many of the patterns (literal words, flag \<open>i\<close>) match the content.\<close>

definition patternHits :: "string list \<Rightarrow> string \<Rightarrow> nat" where
  "patternHits ps contentLower = length (filter (\<lambda>p. regexTest (litCI p) contentLower) ps)"

text \<open>
  The loop over the query words. A word is escaped before it becomes a regular
  expression, so the expression is the literal word (flags \<open>g\<close> and \<open>i\<close>) and its
  construction cannot fail: the \<open>catch\<close> branch of the source is never entered. The
  state of the loop is the pair of \<open>score\<close> and \<open>exactMatches\<close>.
\<close>

definition countMatches :: "string \<Rightarrow> string \<Rightarrow> nat" where
  "countMatches word contentLower =
     (case matchAll (litCI word) contentLower of None \<Rightarrow> 0 | Some ms \<Rightarrow> length ms)"

fun wordLoop :: "string list \<Rightarrow> string \<Rightarrow> int \<times> nat \<Rightarrow> int \<times> nat" where
  "wordLoop [] contentLower acc = acc"
| "wordLoop (word # ws) contentLower (score, exactMatches) =
     (if length word < 3 then wordLoop ws contentLower (score, exactMatches)
      else wordLoop ws contentLower
             (score + int (countMatches word contentLower),
              if includesStr contentLower word then exactMatches + 1 else exactMatches))"

definition calculateRelevance :: "string \<Rightarrow> string \<Rightarrow> real" where
  "calculateRelevance cont query =
     (if query = [] then 0.5
      else
        let queryWords = split whitespaceRun (toLowerCase query);
            contentLower = toLowerCase cont;
            score0 = - 5 * int (patternHits disclaimerPatterns contentLower)
                     + 3 * int (patternHits businessPatterns contentLower);
            (score, exactMatches) = wordLoop queryWords contentLower (score0, 0)
        in min 1.0 (max 0.0
             (real_of_int (score + int exactMatches * 2) / real (length queryWords * 10))))"

subsection \<open>addOverlap\<close>

text \<open>\<open>enhance prev c next\<close> is one turn of the loop: the chunk \<open>c\<close> with the end of
  the previous chunk before it and the start of the next chunk after it, where there
  are such chunks.\<close>

definition withPrevious :: "chunk option \<Rightarrow> string \<Rightarrow> string" where
  "withPrevious prev enhancedContent = (case prev of
       None \<Rightarrow> enhancedContent
     | Some prevChunk \<Rightarrow>
         ''[Previous context: '' @ sliceFrom (content prevChunk) (- int overlapSize)
           @ '']'' @ [CHR 0x0A, CHR 0x0A] @ enhancedContent)"

definition withNext :: "chunk option \<Rightarrow> string \<Rightarrow> string" where
  "withNext nxt enhancedContent = (case nxt of
       None \<Rightarrow> enhancedContent
     | Some nextChunk \<Rightarrow>
         enhancedContent @ [CHR 0x0A, CHR 0x0A] @ ''[Next context: ''
           @ slice (content nextChunk) 0 (int overlapSize) @ '']'')"

definition enhance :: "chunk option \<Rightarrow> chunk \<Rightarrow> chunk option \<Rightarrow> chunk" where
  "enhance prev c nxt =
     (let enhancedContent = withNext nxt (withPrevious prev (content c))
      in c\<lparr>content := enhancedContent,
           originalLength := Some (length (content c)),
           enhancedLength := Some (length enhancedContent)\<rparr>)"

fun overlapLoop :: "chunk option \<Rightarrow> chunk list \<Rightarrow> chunk list" where
  "overlapLoop prev [] = []"
| "overlapLoop prev [c] = [enhance prev c None]"
| "overlapLoop prev (c # d # cs) = enhance prev c (Some d) # overlapLoop (Some c) (d # cs)"

definition addOverlap :: "chunk list \<Rightarrow> chunk list" where
  "addOverlap chunks = (if length chunks \<le> 1 then chunks else overlapLoop None chunks)"

subsection \<open>splitByPattern, splitBySections, splitByParagraphs\<close>

text \<open>The loop of \<open>splitByPattern\<close> over the matches; its state is \<open>lastIndex\<close> and the
  sections pushed so far.\<close>

fun patternLoop :: "string \<Rightarrow> string list \<Rightarrow> int \<Rightarrow> string list \<Rightarrow> int \<times> string list" where
  "patternLoop cont [] lastIndex sections = (lastIndex, sections)"
| "patternLoop cont (m # ms) lastIndex sections =
     (let matchIndex = indexOf cont m lastIndex
      in patternLoop cont ms matchIndex
           (if matchIndex > lastIndex
            then sections @ [trim (slice cont lastIndex matchIndex)] else sections))"

definition splitByPattern :: "string \<Rightarrow> regex \<Rightarrow> string list" where
  "splitByPattern cont pattern = (case matchAll pattern cont of
       None \<Rightarrow> [cont]
     | Some matches \<Rightarrow>
         let (lastIndex, sections) = patternLoop cont matches 0 [];
             sections' = (if lastIndex < int (length cont)
                          then sections @ [trim (sliceFrom cont lastIndex)] else sections)
         in filter (\<lambda>s. length s > 100) sections')"

definition isHash :: "char \<Rightarrow> bool" where
  "isHash c = (c = CHR ''#'')"

definition sectionPatterns :: "regex list" where
  "sectionPatterns =
     [ [lit newline, star isWhiteSpace, Item isHash 1 (Some 6), plus isWhiteSpace, plus isDot],
       [lit newline, star isWhiteSpace, one isUpperAZ,
        Item (\<lambda>c. isUpperAZ c \<or> isWhiteSpace c) 2 None, lit newline],
       [lit newline, star isWhiteSpace, plus isDigit, lit CHR ''.'', plus isWhiteSpace,
        one isUpperAZ, star (\<lambda>c. c \<noteq> CHR ''.''), lit newline],
       [lit newline, star isWhiteSpace, one isUpperAZ, star (\<lambda>c. c \<noteq> CHR ''.''),
        lit CHR '':'', lit newline] ]"

text \<open>The first pattern with more than one match splits the content; with none, the
  content is the only section.\<close>

fun firstSplit :: "regex list \<Rightarrow> string \<Rightarrow> string list" where
  "firstSplit [] cont = [cont]"
| "firstSplit (pattern # ps) cont = (case matchAll pattern cont of
       None \<Rightarrow> firstSplit ps cont
     | Some matches \<Rightarrow> if length matches > 1 then splitByPattern cont pattern
                       else firstSplit ps cont)"

definition disclaimerKeywords :: "string list" where
  "disclaimerKeywords = [''disclaimer'', ''legal'', ''forward-looking'', ''cautionary'',
     ''apologize'', ''notice'', ''standard'', ''portion'', ''moderator'',
     ''introduction'', ''opening remarks'', ''good morning'', ''welcome'']"

definition businessKeywords :: "string list" where
  "businessKeywords = [''revenue'', ''earnings'', ''profit'', ''growth'', ''financial'',
     ''quarter'', ''performance'', ''strategy'', ''initiative'',
     ''business'', ''operational'', ''market'', ''segment'',
     ''medical'', ''health'', ''care'', ''provider'', ''network'',
     ''medicare'', ''medicaid'', ''aca'', ''employer'', ''portfolio'',
     ''billion'', ''million'', ''cost'', ''trend'', ''utilization'']"

definition keywordCount :: "string list \<Rightarrow> string \<Rightarrow> nat" where
  "keywordCount keywords sectionLower =
     length (filter (\<lambda>keyword. includesStr sectionLower keyword) keywords)"

definition shouldKeep :: "string \<Rightarrow> bool" where
  "shouldKeep sec =
     (let sectionLower = toLowerCase sec;
          disclaimerCount = keywordCount disclaimerKeywords sectionLower;
          businessCount = keywordCount businessKeywords sectionLower
      in businessCount \<ge> 2 \<or> (businessCount \<ge> 1 \<and> disclaimerCount < 3))"

definition splitBySections :: "string \<Rightarrow> string list" where
  "splitBySections cont =
     (let sections = firstSplit sectionPatterns cont;
          filteredSections = filter shouldKeep sections
      in filter (\<lambda>s. length (trim s) > 100) filteredSections)"

text \<open>The expression \<open>/\n\s*\n/\<close> that separates paragraphs.\<close>

definition blankLine :: regex where
  "blankLine = [lit newline, star isWhiteSpace, lit newline]"

definition paragraphChunk :: "string \<Rightarrow> chunk" where
  "paragraphChunk currentChunk =
     \<lparr>content = trim currentChunk, relevance = calculateRelevance currentChunk [],
      chunkType = Some ParagraphChunk, originalLength = None, enhancedLength = None\<rparr>"

fun paragraphLoop :: "string list \<Rightarrow> string \<Rightarrow> chunk list \<Rightarrow> string \<times> chunk list" where
  "paragraphLoop [] currentChunk chunks = (currentChunk, chunks)"
| "paragraphLoop (paragraph # ps) currentChunk chunks =
     (if length (currentChunk @ paragraph) \<le> maxChunkSize
      then paragraphLoop ps
             (currentChunk @ (if currentChunk \<noteq> [] then [CHR 0x0A, CHR 0x0A] else [])
                @ paragraph) chunks
      else paragraphLoop ps paragraph
             (if currentChunk \<noteq> [] then chunks @ [paragraphChunk currentChunk] else chunks))"

definition splitByParagraphs :: "string \<Rightarrow> chunk list" where
  "splitByParagraphs cont =
     (let (currentChunk, chunks) = paragraphLoop (split blankLine cont) [] []
      in if trim currentChunk \<noteq> [] then chunks @ [paragraphChunk currentChunk] else chunks)"

subsection \<open>chunkContent\<close>

text \<open>The chunks pushed by the loop over the sections, before they are sorted.\<close>

definition sectionChunks :: "string \<Rightarrow> string \<Rightarrow> chunk list" where
  "sectionChunks sec query =
     (if length sec \<le> maxChunkSize
      then [\<lparr>content = sec, relevance = calculateRelevance sec query,
             chunkType = Some SectionChunk, originalLength = None, enhancedLength = None\<rparr>]
      else map (\<lambda>c. c\<lparr>chunkType := Some ParagraphChunk\<rparr>) (splitByParagraphs sec))"

definition collectChunks :: "string \<Rightarrow> string \<Rightarrow> chunk list" where
  "collectChunks cont query = concat (map (\<lambda>sec. sectionChunks sec query) (splitBySections cont))"

text \<open>\<open>chunks.sort((a, b) => b.relevance - a.relevance)\<close>: a stable sort, the greatest
  relevance first.\<close>

definition sortedChunks :: "string \<Rightarrow> string \<Rightarrow> chunk list" where
  "sortedChunks cont query = sort_key (\<lambda>c. - relevance c) (collectChunks cont query)"

definition filteredChunks :: "string \<Rightarrow> string \<Rightarrow> chunk list" where
  "filteredChunks cont query = filter (\<lambda>c. relevance c > - 0.5) (sortedChunks cont query)"

text \<open>The three \<open>return\<close> statements of \<open>chunkContent\<close>.\<close>

datatype exitPath = SingleChunk | Fallback | Overlapped

definition chunkContentPath :: "string \<Rightarrow> string \<Rightarrow> exitPath" where
  "chunkContentPath cont query =
     (if length cont \<le> maxChunkSize then SingleChunk
      else if length (filteredChunks cont query) = 0 then Fallback
      else Overlapped)"

definition chunkContent :: "string \<Rightarrow> string \<Rightarrow> chunk list" where
  "chunkContent cont query =
     (if length cont \<le> maxChunkSize
      then [\<lparr>content = cont, relevance = calculateRelevance cont query,
             chunkType = None, originalLength = None, enhancedLength = None\<rparr>]
      else if length (filteredChunks cont query) = 0
      then addOverlap (take 2 (sortedChunks cont query))
      else addOverlap (filteredChunks cont query))"

section \<open>SystemPromptManager\<close>

record promptManager =
  baseTemplate :: string
  currentUserText :: string
  currentRetrievedContext :: string
  lastBuiltPrompt :: string

text \<open>The object returned by \<open>validatePrompt\<close>; \<open>promptLength\<close> is its field
  \<open>length\<close>.\<close>

record validation =
  isValid :: bool
  issues :: "string list"
  promptLength :: nat
  hasUserText :: bool
  hasContext :: bool

definition validatePrompt :: "promptManager \<Rightarrow> string \<Rightarrow> validation" where
  "validatePrompt m prompt =
     (let issues1 = (if prompt = [] \<or> length (trim prompt) = 0
                     then [''Prompt is empty''] else []);
          issues2 = (if length prompt > 100000
                     then issues1 @ [''Prompt exceeds recommended length''] else issues1);
          issues3 = (if includesStr prompt ''{{USER_TEXT}}'' \<and> currentUserText m = []
                     then issues2 @ [''User text placeholder not filled''] else issues2);
          issues4 = (if includesStr prompt ''{{RETRIEVED_CONTEXT}}''
                          \<and> currentRetrievedContext m = []
                     then issues3 @ [''Retrieved context placeholder not filled'']
                     else issues3)
      in \<lparr>isValid = (length issues4 = 0), issues = issues4, promptLength = length prompt,
          hasUserText = (currentUserText m \<noteq> []),
          hasContext = (currentRetrievedContext m \<noteq> [])\<rparr>)"

text \<open>
  The validity condition in the words of the specification: a prompt is invalid when it
  is empty, or longer than 100,000 characters, or a placeholder remains while the
  corresponding input is non-empty.
\<close>

definition specInvalid :: "promptManager \<Rightarrow> string \<Rightarrow> bool" where
  "specInvalid m prompt =
     (prompt = [] \<or> length prompt > 100000
      \<or> (includesStr prompt ''{{USER_TEXT}}'' \<and> currentUserText m \<noteq> [])
      \<or> (includesStr prompt ''{{RETRIEVED_CONTEXT}}'' \<and> currentRetrievedContext m \<noteq> []))"

section \<open>ContentCache\<close>

text \<open>
  The state of a cache is its in-memory \<open>Map\<close> (an association list in insertion order,
  as the eviction takes the oldest key), the files of the cache directory by key, and the
  counters. A file either parses to a cache entry or is corrupt. The index file and the
  counter \<open>totalSize\<close> are statistics that neither lookup nor store reads; they are left
  out, and so are the fields a caller adds to the metadata, which cannot replace the four
  fields written by \<open>cacheContent\<close>. The clock \<open>Date.now()\<close> is the argument \<open>now\<close>, and
  whether \<open>fs.writeFileSync\<close> succeeds is the argument \<open>writeOk\<close>. The SHA-256 digest is
  the argument \<open>digest\<close>.
\<close>

record metadata =
  metaOriginalLength :: nat
  metaQuery :: string
  timestamp :: int
  expiresAt :: "int option"

record 'p cacheData =
  cachedContent :: 'p
  metadata :: "metadata option"

datatype 'p cacheFile = Corrupt | Parsed "'p cacheData"

record cacheStats =
  hits :: nat
  misses :: nat
  saves :: nat

record 'p contentCache =
  memoryCache :: "(string \<times> 'p cacheData) list"
  files :: "string \<rightharpoonup> 'p cacheFile"
  cacheStats :: cacheStats

definition maxMemorySize :: nat where
  "maxMemorySize = 100"

definition generateCacheKey :: "(string \<Rightarrow> string) \<Rightarrow> string \<Rightarrow> string \<Rightarrow> string" where
  "generateCacheKey digest cont query = digest (cont @ ''|'' @ query)"

text \<open>\<open>Map.prototype.set\<close> keeps the place of a key that is present and appends a new
  key; \<open>Map.prototype.delete\<close> removes it.\<close>

fun mapSet :: "string \<Rightarrow> 'v \<Rightarrow> (string \<times> 'v) list \<Rightarrow> (string \<times> 'v) list" where
  "mapSet k v [] = [(k, v)]"
| "mapSet k v (e # es) = (if fst e = k then (k, v) # es else e # mapSet k v es)"

definition mapDelete :: "string \<Rightarrow> (string \<times> 'v) list \<Rightarrow> (string \<times> 'v) list" where
  "mapDelete k es = filter (\<lambda>e. fst e \<noteq> k) es"

definition addToMemoryCache ::
  "(string \<times> 'p cacheData) list \<Rightarrow> string \<Rightarrow> 'p cacheData \<Rightarrow> (string \<times> 'p cacheData) list" where
  "addToMemoryCache mem cacheKey data =
     mapSet cacheKey data
       (if length mem \<ge> maxMemorySize
        then (case mem of [] \<Rightarrow> mem | oldest # rest \<Rightarrow> mapDelete (fst oldest) mem)
        else mem)"

definition isCacheValid :: "'p cacheData \<Rightarrow> int \<Rightarrow> bool" where
  "isCacheValid cached now = (case metadata cached of
       None \<Rightarrow> False
     | Some m \<Rightarrow> (case expiresAt m of None \<Rightarrow> False | Some e \<Rightarrow> e \<noteq> 0 \<and> now < e))"

definition countHit :: "'p contentCache \<Rightarrow> 'p contentCache" where
  "countHit C = C\<lparr>cacheStats := (cacheStats C)\<lparr>hits := hits (cacheStats C) + 1\<rparr>\<rparr>"

definition countMiss :: "'p contentCache \<Rightarrow> 'p contentCache" where
  "countMiss C = C\<lparr>cacheStats := (cacheStats C)\<lparr>misses := misses (cacheStats C) + 1\<rparr>\<rparr>"

definition unlink :: "string \<Rightarrow> 'p contentCache \<Rightarrow> 'p contentCache" where
  "unlink cacheKey C = C\<lparr>files := (files C)(cacheKey := None)\<rparr>"

definition getCachedContent ::
  "(string \<Rightarrow> string) \<Rightarrow> 'p contentCache \<Rightarrow> string \<Rightarrow> string \<Rightarrow> int
     \<Rightarrow> 'p cacheData option \<times> 'p contentCache" where
  "getCachedContent digest C cont query now =
     (let cacheKey = generateCacheKey digest cont query
      in case map_of (memoryCache C) cacheKey of
           Some cached \<Rightarrow> (Some cached, countHit C)
         | None \<Rightarrow> (case files C cacheKey of
               None \<Rightarrow> (None, countMiss C)
             | Some Corrupt \<Rightarrow> (None, countMiss (unlink cacheKey C))
             | Some (Parsed cached) \<Rightarrow>
                 if isCacheValid cached now
                 then (Some cached,
                       (countHit C)\<lparr>memoryCache :=
                          addToMemoryCache (memoryCache C) cacheKey cached\<rparr>)
                 else (None, countMiss (unlink cacheKey C))))"

definition cacheContent ::
  "(string \<Rightarrow> string) \<Rightarrow> 'p contentCache \<Rightarrow> string \<Rightarrow> string \<Rightarrow> 'p \<Rightarrow> int \<Rightarrow> bool
     \<Rightarrow> bool \<times> 'p contentCache" where
  "cacheContent digest C cont query processedChunks now writeOk =
     (let cacheKey = generateCacheKey digest cont query;
          data = \<lparr>cachedContent = processedChunks,
                  metadata = Some \<lparr>metaOriginalLength = length cont, metaQuery = query,
                     timestamp = now, expiresAt = Some (now + 24 * 60 * 60 * 1000)\<rparr>\<rparr>
      in if writeOk
         then (True, C\<lparr>memoryCache := addToMemoryCache (memoryCache C) cacheKey data,
                       files := (files C)(cacheKey \<mapsto> Parsed data),
                       cacheStats := (cacheStats C)\<lparr>saves := saves (cacheStats C) + 1\<rparr>\<rparr>)
         else (False, C))"

definition emptyCache :: "'p contentCache" where
  "emptyCache = \<lparr>memoryCache = [], files = Map.empty,
     cacheStats = \<lparr>hits = 0, misses = 0, saves = 0\<rparr>\<rparr>"

section \<open>AdaptiveRateLimiter\<close>

text \<open>
  JavaScript numbers are modelled as exact numbers: counters and times in milliseconds
  as \<open>nat\<close> and \<open>int\<close>, rates as \<open>real\<close>. A rate \<open>0 / 0\<close> is \<open>NaN\<close> in the source, here
  \<open>None\<close>, and every comparison with it is false. Writing the table of users to disk
  every hundredth request changes nothing in memory and is left out.
\<close>

datatype tier = NewUser | Regular | Power | Enterprise

record userLimit =
  tier :: tier
  requests :: nat
  lastRequest :: int
  successCount :: nat
  errorCount :: nat
  upgradeEligible :: bool

text \<open>The object \<open>apiHealth\<close>; \<open>healthErrorCount\<close> is its field \<open>errorCount\<close>.\<close>

record apiHealth =
  successRate :: real
  healthErrorCount :: nat
  totalRequests :: nat
  lastReset :: int

record limiter =
  userLimits :: "string \<rightharpoonup> userLimit"
  health :: apiHealth

text \<open>The object returned by \<open>getUserLimit\<close>; \<open>limitRequests\<close> and \<open>limitTier\<close> are
  its fields \<open>requests\<close> and \<open>tier\<close>.\<close>

record limit =
  limitRequests :: int
  window :: int
  limitTier :: tier
  healthMultiplier :: real

record allowResult =
  allowed :: bool
  remaining :: int
  retryAfter :: "int option"

datatype jsError = TypeError

fun baseLimits :: "tier \<Rightarrow> nat \<times> int" where
  "baseLimits NewUser = (5, 60000)"
| "baseLimits Regular = (15, 60000)"
| "baseLimits Power = (25, 60000)"
| "baseLimits Enterprise = (50, 60000)"

definition newUserRecord :: userLimit where
  "newUserRecord = \<lparr>tier = NewUser, requests = 0, lastRequest = 0,
     successCount = 0, errorCount = 0, upgradeEligible = False\<rparr>"

definition getHealthMultiplier :: "apiHealth \<Rightarrow> real" where
  "getHealthMultiplier h =
     (if successRate h < 0.8 then max 0.5 (1.0 * successRate h)
      else if successRate h > 0.95 \<and> totalRequests h > 1000
      then min 1.5 (1.0 * (1 + (successRate h - 0.95) * 2))
      else 1.0)"

definition getUserLimit :: "limiter \<Rightarrow> string \<Rightarrow> limit \<times> limiter" where
  "getUserLimit L userId =
     (let L1 = (case userLimits L userId of
                  None \<Rightarrow> L\<lparr>userLimits := (userLimits L)(userId \<mapsto> newUserRecord)\<rparr>
                | Some u \<Rightarrow> L);
          user = (case userLimits L userId of None \<Rightarrow> newUserRecord | Some u \<Rightarrow> u);
          baseLimit = baseLimits (tier user);
          multiplier = getHealthMultiplier (health L1)
      in (\<lparr>limitRequests = \<lfloor>real (fst baseLimit) * multiplier\<rfloor>, window = snd baseLimit,
           limitTier = tier user, healthMultiplier = multiplier\<rparr>, L1))"

definition successRateOf :: "userLimit \<Rightarrow> real option" where
  "successRateOf user =
     (if successCount user + errorCount user = 0 then None
      else Some (real (successCount user) / real (successCount user + errorCount user)))"

definition rateAtLeast :: "real option \<Rightarrow> real \<Rightarrow> bool" where
  "rateAtLeast r b = (case r of None \<Rightarrow> False | Some x \<Rightarrow> x \<ge> b)"

definition rateBelow :: "real option \<Rightarrow> real \<Rightarrow> bool" where
  "rateBelow r b = (case r of None \<Rightarrow> False | Some x \<Rightarrow> x < b)"

text \<open>The body of \<open>updateUserTier\<close> on the record of the user: the upgrade, then the
  downgrade on the tier the upgrade left.\<close>

definition upgradeTier :: "userLimit \<Rightarrow> userLimit" where
  "upgradeTier user =
     (let rate = successRateOf user; total = successCount user + errorCount user
      in if total \<ge> 50 \<and> rateAtLeast rate 0.9 \<and> tier user = NewUser
         then user\<lparr>tier := Regular, upgradeEligible := False\<rparr>
         else if total \<ge> 200 \<and> rateAtLeast rate 0.95 \<and> tier user = Regular
         then user\<lparr>tier := Power, upgradeEligible := False\<rparr>
         else user)"

definition downgradeTier :: "userLimit \<Rightarrow> userLimit" where
  "downgradeTier user =
     (let rate = successRateOf user; total = successCount user + errorCount user
      in if total \<ge> 100 \<and> rateBelow rate 0.7 \<and> tier user \<noteq> NewUser
         then user\<lparr>tier := (if tier user = Power then Regular else NewUser)\<rparr>
         else user)"

definition updateUserTier :: "limiter \<Rightarrow> string \<Rightarrow> limiter" where
  "updateUserTier L userId = (case userLimits L userId of
       None \<Rightarrow> L
     | Some user \<Rightarrow>
         L\<lparr>userLimits := (userLimits L)(userId \<mapsto> downgradeTier (upgradeTier user))\<rparr>)"

definition updateApiHealth :: "limiter \<Rightarrow> int \<Rightarrow> limiter" where
  "updateApiHealth L now =
     (if now - lastReset (health L) > 3600000
      then L\<lparr>health := \<lparr>successRate = 1.0, healthErrorCount = 0, totalRequests = 0,
                          lastReset = now\<rparr>\<rparr>
      else L)"

definition recordRequest :: "limiter \<Rightarrow> string \<Rightarrow> bool \<Rightarrow> int \<Rightarrow> limiter" where
  "recordRequest L userId success now = (case userLimits L userId of
       None \<Rightarrow> L
     | Some user \<Rightarrow>
         let user1 = (if success then user\<lparr>successCount := successCount user + 1\<rparr>
                      else user\<lparr>errorCount := errorCount user + 1\<rparr>);
             h = health L;
             h1 = (if success then h\<lparr>successRate := successRate h * 0.9 + 0.1\<rparr>
                   else h\<lparr>healthErrorCount := healthErrorCount h + 1\<rparr>);
             h2 = h1\<lparr>totalRequests := totalRequests h1 + 1\<rparr>;
             L1 = L\<lparr>userLimits := (userLimits L)(userId \<mapsto> user1), health := h2\<rparr>
         in updateApiHealth (updateUserTier L1 userId) now)"

text \<open>
  \<open>isRequestAllowed\<close> reads the record of the user before \<open>getUserLimit\<close> creates it, so
  for a user without a record the first read of \<open>user.lastRequest\<close> throws a
  \<open>TypeError\<close>, after the record has been created.
\<close>

definition isRequestAllowed ::
  "limiter \<Rightarrow> string \<Rightarrow> int \<Rightarrow> (jsError + allowResult) \<times> limiter" where
  "isRequestAllowed L userId now =
     (let (lim, L1) = getUserLimit L userId
      in case userLimits L userId of
           None \<Rightarrow> (Inl TypeError, L1)
         | Some user \<Rightarrow>
             let user1 = (if now - lastRequest user > window lim
                          then user\<lparr>requests := 0, lastRequest := now\<rparr> else user)
             in if int (requests user1) < limitRequests lim
                then let user2 = user1\<lparr>requests := requests user1 + 1, lastRequest := now\<rparr>;
                         L2 = recordRequest
                                (L1\<lparr>userLimits := (userLimits L1)(userId \<mapsto> user2)\<rparr>)
                                userId True now
                     in (Inr \<lparr>allowed = True,
                              remaining = limitRequests lim - int (requests user2),
                              retryAfter = None\<rparr>, L2)
                else let L2 = recordRequest
                                (L1\<lparr>userLimits := (userLimits L1)(userId \<mapsto> user1)\<rparr>)
                                userId False now;
                         timeUntilReset = window lim - (now - lastRequest user1)
                     in (Inr \<lparr>allowed = False, remaining = 0,
                              retryAfter = Some \<lceil>real_of_int timeUntilReset / 1000\<rceil>\<rparr>, L2))"

text \<open>A sequence of recorded outcomes of one user, each with the clock at the call.\<close>

fun recordAll :: "limiter \<Rightarrow> string \<Rightarrow> (bool \<times> int) list \<Rightarrow> limiter" where
  "recordAll L userId [] = L"
| "recordAll L userId (outcome # rest) =
     recordAll (recordRequest L userId (fst outcome) (snd outcome)) userId rest"

text \<open>
  The promotion condition in the words of the specification, on the number of successes
  and the total number of outcomes: at least 50 outcomes and a success rate of at least
  0.9.
\<close>

definition qualifies :: "nat \<Rightarrow> nat \<Rightarrow> bool" where
  "qualifies successes outcomes =
     (outcomes \<ge> 50 \<and> real successes / real outcomes \<ge> 0.9)"

section \<open>Predicates and sample states for the properties\<close>

text \<open>A chunk whose relevance lies in the unit interval.\<close>

definition scored :: "chunk \<Rightarrow> bool" where
  "scored c = (0 \<le> relevance c \<and> relevance c \<le> 1)"

text \<open>A chunk as the loops of \<open>chunkContent\<close> build it, before \<open>addOverlap\<close>.\<close>

definition plainChunk :: "string \<Rightarrow> real \<Rightarrow> chunk" where
  "plainChunk s r = \<lparr>content = s, relevance = r, chunkType = Some SectionChunk,
     originalLength = None, enhancedLength = None\<rparr>"

text \<open>A prompt manager after \<open>reset\<close>: no user text and no retrieved context.\<close>

definition blankManager :: promptManager where
  "blankManager = \<lparr>baseTemplate = ''{{USER_TEXT}}'', currentUserText = [],
     currentRetrievedContext = [], lastBuiltPrompt = []\<rparr>"

text \<open>Limiters with one user \<open>u1\<close>: one whose health snapshot is older than an hour at
  time 3,600,001, one whose user has made \<open>n\<close> requests in the window that started at
  time 1000, and one whose user has no recorded outcome.\<close>

definition staleLimiter :: limiter where
  "staleLimiter = \<lparr>userLimits = [''u1'' \<mapsto> newUserRecord],
     health = \<lparr>successRate = 0.5, healthErrorCount = 3, totalRequests = 7, lastReset = 0\<rparr>\<rparr>"

definition busyLimiter :: "nat \<Rightarrow> limiter" where
  "busyLimiter n = \<lparr>userLimits = [''u1'' \<mapsto> newUserRecord\<lparr>requests := n, lastRequest := 1000\<rparr>],
     health = \<lparr>successRate = 1, healthErrorCount = 0, totalRequests = 0, lastReset = 0\<rparr>\<rparr>"

definition freshLimiter :: limiter where
  "freshLimiter = \<lparr>userLimits = [''u1'' \<mapsto> newUserRecord],
     health = \<lparr>successRate = 1, healthErrorCount = 0, totalRequests = 0, lastReset = 0\<rparr>\<rparr>"

section \<open>Properties of SmartContentProcessor\<close>

subsection \<open>Scoring an empty content\<close>

lemma matchItems_litCI_Nil: "p \<noteq> [] \<Longrightarrow> matchItems (litCI p) [] = None"
  by (cases p) (simp_all add: litCI_def one_def maxRun_def minRun_def)

lemma regexTest_litCI_Nil: "p \<noteq> [] \<Longrightarrow> regexTest (litCI p) [] = False"
  by (simp add: matchItems_litCI_Nil)

lemma patternHits_Nil: "[] \<notin> set ps \<Longrightarrow> patternHits ps [] = 0"
  by (induction ps) (auto simp: patternHits_def matchItems_litCI_Nil)

lemma countMatches_Nil: "w \<noteq> [] \<Longrightarrow> countMatches w [] = 0"
  by (simp add: countMatches_def matchAll_def matchItems_litCI_Nil)

lemma wordLoop_Nil: "wordLoop ws [] (s, e) = (s, e)"
proof (induction ws)
  case Nil
  show ?case by simp
next
  case (Cons w ws)
  show ?case
  proof (cases "length w < 3")
    case True
    with Cons show ?thesis by simp
  next
    case False
    then have "w \<noteq> []" by auto
    with False Cons show ?thesis by (simp add: countMatches_Nil)
  qed
qed

lemma calculateRelevance_empty_content:
  "calculateRelevance [] query = (if query = [] then 1 / 2 else 0)"
proof -
  have d: "patternHits disclaimerPatterns [] = 0"
    by (rule patternHits_Nil) (simp add: disclaimerPatterns_def)
  have b: "patternHits businessPatterns [] = 0"
    by (rule patternHits_Nil) (simp add: businessPatterns_def)
  show ?thesis
    by (simp add: calculateRelevance_def toLowerCase_def d b wordLoop_Nil)
qed

lemma calculateRelevance_range:
  "0 \<le> calculateRelevance cont query \<and> calculateRelevance cont query \<le> 1"
  by (simp add: calculateRelevance_def Let_def split: prod.split)

subsection \<open>Content within the limit\<close>

text \<open>
  Claim C6: for every content of length at most \<open>maxChunkSize\<close> (25,000) and every
  query, \<open>chunkContent\<close> returns exactly one chunk, and the content of that chunk is the
  input.
\<close>

theorem chunkContent_within_limit:
  "length cont \<le> maxChunkSize \<Longrightarrow>
   maxChunkSize = 25000 \<and> length (chunkContent cont query) = 1
   \<and> content (chunkContent cont query ! 0) = cont"
  by (simp add: chunkContent_def maxChunkSize_def)

theorem chunkContent_within_limit_witness:
  "length ''Revenue grew'' \<le> maxChunkSize
   \<and> length (chunkContent ''Revenue grew'' ''revenue'') = 1
   \<and> content (chunkContent ''Revenue grew'' ''revenue'' ! 0) = ''Revenue grew''"
  using chunkContent_within_limit [of "''Revenue grew''" "''revenue''"]
  by (simp add: maxChunkSize_def)

text \<open>
  Claim C3 says that \<open>chunkContent\<close> returns the empty list for the empty content. The
  empty content is within the limit, so the code returns one chunk: its content is empty
  and its relevance is 0.5 for the empty query and 0 for any other query; it has no type
  and no length fields.
\<close>

theorem chunkContent_empty_content:
  "chunkContent [] query =
     [\<lparr>content = [], relevance = (if query = [] then 1 / 2 else 0),
       chunkType = None, originalLength = None, enhancedLength = None\<rparr>]"
  by (simp add: chunkContent_def calculateRelevance_empty_content)

theorem chunkContent_empty_content_witness:
  "chunkContent [] ''revenue growth'' =
     [\<lparr>content = [], relevance = 0,
       chunkType = None, originalLength = None, enhancedLength = None\<rparr>]"
  using chunkContent_empty_content [of "''revenue growth''"] by simp

text \<open>The result for the empty content is not the empty list.\<close>

theorem chunkContent_empty_content_counterexample:
  "chunkContent [] ''revenue growth'' \<noteq> []"
  by (simp add: chunkContent_def)

subsection \<open>Overlap\<close>

lemma length_overlapLoop: "length (overlapLoop prev cs) = length cs"
  by (induction prev cs rule: overlapLoop.induct) simp_all

lemma overlapLoop_nth:
  "i < length cs \<Longrightarrow>
   overlapLoop prev cs ! i =
     enhance (if i = 0 then prev else Some (cs ! (i - 1))) (cs ! i)
       (if Suc i < length cs then Some (cs ! Suc i) else None)"
proof (induction prev cs arbitrary: i rule: overlapLoop.induct)
  case (1 prev)
  then show ?case by simp
next
  case (2 prev c)
  then show ?case by simp
next
  case (3 prev c d cs)
  show ?case
  proof (cases i)
    case 0
    then show ?thesis by simp
  next
    case (Suc j)
    with 3 show ?thesis by (cases j) simp_all
  qed
qed

lemma enhance_relevance: "relevance (enhance p c n) = relevance c"
  by (simp add: enhance_def Let_def)

lemma enhance_chunkType: "chunkType (enhance p c n) = chunkType c"
  by (simp add: enhance_def Let_def)

lemma enhance_originalLength: "originalLength (enhance p c n) = Some (length (content c))"
  by (simp add: enhance_def Let_def)

lemma enhance_enhancedLength:
  "enhancedLength (enhance p c n) = Some (length (content (enhance p c n)))"
  by (simp add: enhance_def Let_def)

lemma enhance_content: "\<exists>pre post. content (enhance p c n) = pre @ content c @ post"
proof -
  obtain pre where a: "withPrevious p (content c) = pre @ content c"
    by (cases p) (auto simp: withPrevious_def)
  obtain post where b: "withNext n (pre @ content c) = (pre @ content c) @ post"
    by (cases n) (auto simp: withNext_def)
  have "content (enhance p c n) = pre @ content c @ post"
    using a b by (simp add: enhance_def Let_def)
  then show ?thesis by blast
qed

lemma enhance_length: "length (content c) \<le> length (content (enhance p c n))"
proof -
  obtain pre post where "content (enhance p c n) = pre @ content c @ post"
    using enhance_content by blast
  then show ?thesis by simp
qed

text \<open>
  Claim C7 says that \<open>addOverlap\<close> sets \<open>originalLength\<close> and keeps
  \<open>enhancedLength \<ge> originalLength\<close> for every list of chunks. A list of at most one
  chunk is returned as it is, without the two length fields. What holds: for every list,
  \<open>addOverlap\<close> returns as many chunks, leaves the relevance and the type of each chunk
  unchanged and keeps its content as a substring of the new content; a list of at most one
  chunk is returned unchanged; in a list of two or more chunks, \<open>originalLength\<close> is the
  length of the original content, \<open>enhancedLength\<close> is the length of the new content, and
  the new content is at least as long as the original.
\<close>

theorem addOverlap_frame:
  assumes "i < length chunks"
  shows "length (addOverlap chunks) = length chunks
    \<and> relevance (addOverlap chunks ! i) = relevance (chunks ! i)
    \<and> chunkType (addOverlap chunks ! i) = chunkType (chunks ! i)
    \<and> (\<exists>pre post. content (addOverlap chunks ! i) = pre @ content (chunks ! i) @ post)
    \<and> (if length chunks \<le> 1 then addOverlap chunks = chunks
        else originalLength (addOverlap chunks ! i) = Some (length (content (chunks ! i)))
           \<and> enhancedLength (addOverlap chunks ! i)
               = Some (length (content (addOverlap chunks ! i)))
           \<and> length (content (chunks ! i)) \<le> length (content (addOverlap chunks ! i)))"
proof (cases "length chunks \<le> 1")
  case True
  have "content (chunks ! i) = [] @ content (chunks ! i) @ []" by simp
  then have "\<exists>pre post. content (chunks ! i) = pre @ content (chunks ! i) @ post" by blast
  with True show ?thesis by (simp add: addOverlap_def)
next
  case False
  then have eq: "addOverlap chunks = overlapLoop None chunks" by (simp add: addOverlap_def)
  from assms have nth: "overlapLoop None chunks ! i =
     enhance (if i = 0 then None else Some (chunks ! (i - 1))) (chunks ! i)
       (if Suc i < length chunks then Some (chunks ! Suc i) else None)"
    by (rule overlapLoop_nth)
  show ?thesis
    unfolding eq nth using False
    by (simp add: length_overlapLoop enhance_relevance enhance_chunkType
        enhance_originalLength enhance_enhancedLength [symmetric] enhance_content enhance_length)
qed

theorem addOverlap_frame_witness:
  "1 < length [plainChunk ''abc'' 1, plainChunk ''defgh'' 0]
   \<and> relevance (addOverlap [plainChunk ''abc'' 1, plainChunk ''defgh'' 0] ! 1) = 0
   \<and> originalLength (addOverlap [plainChunk ''abc'' 1, plainChunk ''defgh'' 0] ! 1) = Some 5
   \<and> enhancedLength (addOverlap [plainChunk ''abc'' 1, plainChunk ''defgh'' 0] ! 1)
       = Some (length (content (addOverlap [plainChunk ''abc'' 1, plainChunk ''defgh'' 0] ! 1)))"
  using addOverlap_frame [of 1 "[plainChunk ''abc'' 1, plainChunk ''defgh'' 0]"]
  by (simp add: plainChunk_def)

text \<open>The chunk of a one-element list comes back without the two length fields.\<close>

theorem addOverlap_frame_counterexample:
  "originalLength (addOverlap [plainChunk ''abc'' 1] ! 0) = None
   \<and> enhancedLength (addOverlap [plainChunk ''abc'' 1] ! 0) = None"
  by (simp add: addOverlap_def plainChunk_def)

subsection \<open>Relevance of the collected chunks\<close>

lemma scored_paragraphChunk: "scored (paragraphChunk s)"
  by (simp add: scored_def paragraphChunk_def calculateRelevance_def)

lemma paragraphLoop_scored:
  "list_all scored chunks \<Longrightarrow> list_all scored (snd (paragraphLoop ps cur chunks))"
  by (induction ps cur chunks rule: paragraphLoop.induct)
     (simp_all add: scored_paragraphChunk)

lemma splitByParagraphs_scored: "list_all scored (splitByParagraphs s)"
proof (cases "paragraphLoop (split blankLine s) [] []")
  case (Pair cur chunks)
  have "list_all scored (snd (paragraphLoop (split blankLine s) [] []))"
    by (rule paragraphLoop_scored) simp
  with Pair have "list_all scored chunks" by simp
  with Pair show ?thesis
    by (simp add: splitByParagraphs_def scored_paragraphChunk)
qed

lemma sectionChunks_scored: "list_all scored (sectionChunks sec query)"
proof (cases "length sec \<le> maxChunkSize")
  case True
  then show ?thesis
    using calculateRelevance_range [of sec query] by (simp add: sectionChunks_def scored_def)
next
  case False
  have "list_all scored (map (\<lambda>c. c\<lparr>chunkType := Some ParagraphChunk\<rparr>) (splitByParagraphs sec))"
    using splitByParagraphs_scored [of sec]
    by (simp add: list_all_iff scored_def)
  with False show ?thesis by (simp add: sectionChunks_def)
qed

lemma collectChunks_scored: "list_all scored (collectChunks cont query)"
  by (simp add: collectChunks_def list_all_iff) (metis sectionChunks_scored list_all_iff)

lemma sortedChunks_scored: "list_all scored (sortedChunks cont query)"
  using collectChunks_scored [of cont query] by (simp add: sortedChunks_def list_all_iff)

lemma filteredChunks_all: "filteredChunks cont query = sortedChunks cont query"
proof -
  have "\<forall>c \<in> set (sortedChunks cont query). relevance c > - 0.5"
    using sortedChunks_scored [of cont query] by (auto simp: list_all_iff scored_def)
  then show ?thesis by (simp add: filteredChunks_def)
qed

lemma sortedChunks_Nil: "sortedChunks cont query = [] \<longleftrightarrow> collectChunks cont query = []"
proof -
  have "length (sortedChunks cont query) = length (collectChunks cont query)"
    by (simp add: sortedChunks_def)
  then show ?thesis by (metis length_0_conv)
qed

subsection \<open>A content without a line feed and without business vocabulary\<close>

lemma minRun_lit: "minRun (lit c) = 1"
  by (simp add: minRun_def lit_def one_def)

lemma maxRun_lit_absent: "c \<notin> set s \<Longrightarrow> maxRun (lit c) s = 0"
  by (cases s) (auto simp: maxRun_def lit_def one_def)

lemma matchItems_newline_first:
  "newline \<notin> set s \<Longrightarrow> matchItems (lit newline # rest) s = None"
  by (simp add: minRun_lit maxRun_lit_absent)

lemma scanMatches_no_newline:
  "newline \<notin> set s \<Longrightarrow> scanMatches (lit newline # rest) k s = []"
proof (induction s arbitrary: k)
  case Nil
  have "matchItems (lit newline # rest) [] = None"
    by (rule matchItems_newline_first) simp
  then show ?case by (simp del: matchItems.simps)
next
  case (Cons c cs)
  then have "matchItems (lit newline # rest) (c # cs) = None"
    by (intro matchItems_newline_first) simp
  with Cons show ?case by (simp del: matchItems.simps)
qed

lemma matchAll_no_newline:
  "newline \<notin> set s \<Longrightarrow> matchAll (lit newline # rest) s = None"
  by (simp add: matchAll_def scanMatches_no_newline)

lemma firstSplit_no_newline:
  "newline \<notin> set s \<Longrightarrow> firstSplit sectionPatterns s = [s]"
  by (simp add: sectionPatterns_def matchAll_no_newline)

lemma startsWith_set: "startsWith s w \<Longrightarrow> set w \<subseteq> set s"
  unfolding startsWith_def by (metis set_take_subset)

lemma includesStr_set: "includesStr s w \<Longrightarrow> set w \<subseteq> set s"
proof (induction s)
  case Nil
  then show ?case by simp
next
  case (Cons c cs)
  then show ?case using startsWith_set [of "c # cs" w] by auto
qed

lemma keywordCount_zero:
  assumes "\<forall>w \<in> set ws. \<not> set w \<subseteq> set s"
  shows "keywordCount ws s = 0"
proof -
  have "\<forall>w \<in> set ws. \<not> includesStr s w"
    using assms includesStr_set by blast
  then show ?thesis by (simp add: keywordCount_def)
qed

lemma lowerChar_x: "lowerChar CHR ''x'' = CHR ''x''"
  by (simp add: lowerChar_def code_def)

lemma toLowerCase_x: "toLowerCase (replicate n CHR ''x'') = replicate n CHR ''x''"
  by (simp add: toLowerCase_def lowerChar_x)

lemma shouldKeep_x: "\<not> shouldKeep (replicate n CHR ''x'')"
proof -
  have "keywordCount businessKeywords (replicate n CHR ''x'') = 0"
    by (rule keywordCount_zero) (auto simp: businessKeywords_def)
  then show ?thesis by (simp add: shouldKeep_def toLowerCase_x)
qed

lemma splitBySections_x: "splitBySections (replicate n CHR ''x'') = []"
proof -
  have "newline \<notin> set (replicate n CHR ''x'')" by (auto simp: newline_def)
  then have "firstSplit sectionPatterns (replicate n CHR ''x'') = [replicate n CHR ''x'']"
    by (rule firstSplit_no_newline)
  then show ?thesis by (simp add: splitBySections_def shouldKeep_x)
qed

lemma fallback_x:
  "25000 < n \<Longrightarrow> chunkContentPath (replicate n CHR ''x'') query = Fallback"
  by (simp add: chunkContentPath_def maxChunkSize_def filteredChunks_def sortedChunks_def
      collectChunks_def splitBySections_x)

text \<open>
  Claim C10 says that the relevance is always in the unit interval, that the filter
  \<open>relevance > -0.5\<close> therefore keeps every chunk, and that the fallback branch of
  \<open>chunkContent\<close> is unreachable. The first two hold. The fallback branch is entered
  when the list of chunks is empty before the filter, which happens when
  \<open>splitBySections\<close> drops every section. What holds: the relevance is in the unit
  interval, and 0.5 for the empty query; the filter keeps every chunk; the fallback branch
  is entered exactly when the content is longer than \<open>maxChunkSize\<close> and no chunk was
  collected, and the result is then the empty list.
\<close>

theorem relevance_filter:
  "0 \<le> calculateRelevance cont query \<and> calculateRelevance cont query \<le> 1
   \<and> calculateRelevance cont [] = 0.5
   \<and> filteredChunks cont query = sortedChunks cont query
   \<and> (chunkContentPath cont query = Fallback)
       = (length cont > maxChunkSize \<and> collectChunks cont query = [])
   \<and> (chunkContentPath cont query = Fallback \<longrightarrow> chunkContent cont query = [])"
proof -
  have p: "chunkContentPath cont query = Fallback
        \<longleftrightarrow> length cont > maxChunkSize \<and> collectChunks cont query = []"
    by (auto simp: chunkContentPath_def filteredChunks_all sortedChunks_Nil)
  have r: "chunkContent cont query = []" if f: "chunkContentPath cont query = Fallback"
  proof -
    from f p have "sortedChunks cont query = []" by (simp add: sortedChunks_Nil)
    moreover from f p have "\<not> length cont \<le> maxChunkSize" by simp
    ultimately show ?thesis
      by (simp add: chunkContent_def filteredChunks_all addOverlap_def)
  qed
  have e: "calculateRelevance cont [] = 0.5" by (simp add: calculateRelevance_def)
  show ?thesis using calculateRelevance_range [of cont query] p r e filteredChunks_all by simp
qed

theorem relevance_filter_witness:
  "chunkContentPath (replicate 30000 CHR ''x'') ''growth'' = Fallback
   \<and> chunkContent (replicate 30000 CHR ''x'') ''growth'' = []"
  using relevance_filter [of "replicate 30000 CHR ''x''" "''growth''"]
    fallback_x [of 30000 "''growth''"]
  by simp

text \<open>A content of 25,001 letters \<open>x\<close> has no line feed and no business keyword:
  \<open>splitBySections\<close> keeps no section, and \<open>chunkContent\<close> leaves through the fallback
  branch.\<close>

theorem fallback_reached_counterexample:
  "chunkContentPath (replicate 25001 CHR ''x'') ''revenue'' = Fallback"
  by (rule fallback_x) simp

section \<open>Properties of SystemPromptManager\<close>

text \<open>
  Claim C5 says that a prompt is invalid exactly when it is empty, or longer than 100,000
  characters, or a placeholder remains while the corresponding input is non-empty. The
  code tests the opposite about the input: a placeholder in the prompt is an issue when
  the corresponding input is empty. It also counts a prompt of white space as empty.
  What holds: a prompt is invalid exactly when it is empty or only white space, or longer
  than 100,000 characters, or contains the user-text placeholder while the current user
  text is empty, or contains the retrieved-context placeholder while the current retrieved
  context is empty.
\<close>

theorem validatePrompt_invalid_iff:
  "isValid (validatePrompt m prompt) = False \<longleftrightarrow>
     (trim prompt = [] \<or> length prompt > 100000
      \<or> (includesStr prompt ''{{USER_TEXT}}'' \<and> currentUserText m = [])
      \<or> (includesStr prompt ''{{RETRIEVED_CONTEXT}}'' \<and> currentRetrievedContext m = []))"
proof -
  have "prompt = [] \<Longrightarrow> trim prompt = []" by (simp add: trim_def)
  then show ?thesis by (auto simp: validatePrompt_def Let_def)
qed

theorem validatePrompt_witness:
  "isValid (validatePrompt blankManager ''Analyze {{USER_TEXT}}'') = False"
  using validatePrompt_invalid_iff [of blankManager "''Analyze {{USER_TEXT}}''"]
  by (simp add: blankManager_def startsWith_def)

text \<open>With no user text, the prompt that is the bare placeholder is invalid for the
  code and valid for the condition of the specification.\<close>

theorem validatePrompt_counterexample:
  "isValid (validatePrompt blankManager ''{{USER_TEXT}}'') = False
   \<and> specInvalid blankManager ''{{USER_TEXT}}'' = False"
  by (simp add: validatePrompt_def specInvalid_def blankManager_def Let_def startsWith_def
      trim_def isWhiteSpace_def code_def)

section \<open>Properties of ContentCache\<close>

lemma map_of_mapSet: "map_of (mapSet k v es) k = Some v"
  by (induction es) auto

lemma map_of_addToMemoryCache: "map_of (addToMemoryCache mem k v) k = Some v"
  by (simp add: addToMemoryCache_def map_of_mapSet)

text \<open>The lookup on the persisted tier does check the expiry: an entry that is only on
  disk is a miss from \<open>expiresAt\<close> on.\<close>

lemma getCachedContent_disk_expired:
  assumes "map_of (memoryCache C) (generateCacheKey digest cont query) = None"
    and "files C (generateCacheKey digest cont query) = Some (Parsed cached)"
    and "metadata cached = Some m" and "expiresAt m = Some e" and "e \<le> now"
  shows "fst (getCachedContent digest C cont query now) = None"
  using assms by (simp add: getCachedContent_def Let_def isCacheValid_def)

text \<open>
  Claim C1 says that a lookup at any time from \<open>expiresAt\<close> on is a miss, also for an
  entry of the in-memory tier. \<open>getCachedContent\<close> returns an entry of the in-memory
  tier without calling \<open>isCacheValid\<close>: after a successful \<open>cacheContent\<close> at time
  \<open>now\<close>, the lookup of the same pair at the instant \<open>expiresAt = now + 86,400,000\<close> is
  a hit that returns the stored entry.
\<close>

theorem getCachedContent_memory_hit_at_expiry:
  "fst (getCachedContent digest
          (snd (cacheContent digest C cont query payload now True))
          cont query (now + 24 * 60 * 60 * 1000))
   = Some \<lparr>cachedContent = payload,
            metadata = Some \<lparr>metaOriginalLength = length cont, metaQuery = query,
              timestamp = now, expiresAt = Some (now + 24 * 60 * 60 * 1000)\<rparr>\<rparr>"
  by (simp add: getCachedContent_def cacheContent_def Let_def map_of_addToMemoryCache)

text \<open>
  Claim C4 says that when the write to the persisted tier fails, the entry is still
  placed in the in-memory tier and a later lookup returns it. The write comes first in the
  \<open>try\<close> block, so its failure skips the store into memory. What holds: when the write
  fails, \<open>cacheContent\<close> returns \<open>false\<close> and changes neither tier, so a later lookup
  answers as it would have without the call; it is a miss when the pair was in neither
  tier before.
\<close>

theorem cacheContent_failed_write:
  "cacheContent digest C cont query payload now False = (False, C)
   \<and> getCachedContent digest (snd (cacheContent digest C cont query payload now False))
        cont query later
     = getCachedContent digest C cont query later
   \<and> (map_of (memoryCache C) (generateCacheKey digest cont query) = None
        \<and> files C (generateCacheKey digest cont query) = None
      \<longrightarrow> fst (getCachedContent digest
                 (snd (cacheContent digest C cont query payload now False))
                 cont query later) = None)"
  by (simp add: cacheContent_def getCachedContent_def Let_def)

theorem cacheContent_failed_write_witness:
  "map_of (memoryCache (emptyCache :: string contentCache))
       (generateCacheKey (\<lambda>s. s) ''report'' ''revenue'') = None
   \<and> files (emptyCache :: string contentCache)
       (generateCacheKey (\<lambda>s. s) ''report'' ''revenue'') = None
   \<and> fst (getCachedContent (\<lambda>s. s)
            (snd (cacheContent (\<lambda>s. s) emptyCache ''report'' ''revenue'' ''chunks'' 5 False))
            ''report'' ''revenue'' 10) = None"
  using cacheContent_failed_write [of "\<lambda>s. s" emptyCache "''report''" "''revenue''" "''chunks''" 5 10]
  by (simp add: emptyCache_def cacheContent_def getCachedContent_def Let_def)

text \<open>On the empty cache, a store whose write fails is followed by a miss within the TTL.\<close>

theorem cacheContent_failed_write_counterexample:
  "fst (getCachedContent (\<lambda>s. s)
          (snd (cacheContent (\<lambda>s. s) emptyCache ''doc'' ''q'' ''payload'' 0 False))
          ''doc'' ''q'' 1) = None"
  by (simp add: cacheContent_def getCachedContent_def Let_def emptyCache_def)

section \<open>Properties of AdaptiveRateLimiter\<close>

subsection \<open>Recording an outcome\<close>

lemma updateApiHealth_users: "userLimits (updateApiHealth L now) = userLimits L"
  by (simp add: updateApiHealth_def)

lemma tierStep_requests:
  "requests (downgradeTier (upgradeTier u)) = requests u
   \<and> lastRequest (downgradeTier (upgradeTier u)) = lastRequest u
   \<and> successCount (downgradeTier (upgradeTier u)) = successCount u
   \<and> errorCount (downgradeTier (upgradeTier u)) = errorCount u"
  by (simp add: downgradeTier_def upgradeTier_def Let_def)

lemma recordRequest_user:
  "userLimits L uid = Some u \<Longrightarrow>
   userLimits (recordRequest L uid success now) uid =
     Some (downgradeTier (upgradeTier
       (if success then u\<lparr>successCount := successCount u + 1\<rparr>
        else u\<lparr>errorCount := errorCount u + 1\<rparr>)))"
  by (simp add: recordRequest_def Let_def updateApiHealth_users updateUserTier_def)

lemma recordRequest_health:
  "userLimits L uid = Some u \<Longrightarrow>
   health (recordRequest L uid success now) =
     (if now - lastReset (health L) > 3600000
      then \<lparr>successRate = 1, healthErrorCount = 0, totalRequests = 0, lastReset = now\<rparr>
      else (if success then (health L)\<lparr>successRate := successRate (health L) * 0.9 + 0.1\<rparr>
            else (health L)\<lparr>healthErrorCount := healthErrorCount (health L) + 1\<rparr>)
           \<lparr>totalRequests := totalRequests (health L) + 1\<rparr>)"
  by (simp add: recordRequest_def Let_def updateApiHealth_def updateUserTier_def)

text \<open>
  Claim C9 says that a recorded success moves the health average to
  \<open>successRate * 0.9 + 0.1\<close> and that a recorded failure leaves it unchanged. Every
  recorded outcome ends with \<open>updateApiHealth\<close>, which resets the whole snapshot when it
  is older than an hour, also after a failure. What holds, for a user with a record: when
  the snapshot is older than an hour, the outcome leaves the snapshot reset (rate 1, both
  counters 0); otherwise \<open>totalRequests\<close> grows by one, a success moves the rate to
  \<open>successRate * 0.9 + 0.1\<close> and leaves the error counter of the system, and a failure
  leaves the rate and adds one to the error counter of the system. In both cases a success
  adds one to the success counter of the user and a failure adds one to the error counter
  of the user.
\<close>

theorem recordRequest_ema:
  assumes "userLimits L uid = Some u"
  shows "\<exists>u'. userLimits (recordRequest L uid success now) uid = Some u'
    \<and> (if now - lastReset (health L) > 3600000
        then health (recordRequest L uid success now)
               = \<lparr>successRate = 1, healthErrorCount = 0, totalRequests = 0, lastReset = now\<rparr>
        else totalRequests (health (recordRequest L uid success now))
               = totalRequests (health L) + 1
           \<and> (if success
               then successRate (health (recordRequest L uid success now))
                      = successRate (health L) * 0.9 + 0.1
                  \<and> healthErrorCount (health (recordRequest L uid success now))
                      = healthErrorCount (health L)
               else successRate (health (recordRequest L uid success now))
                      = successRate (health L)
                  \<and> healthErrorCount (health (recordRequest L uid success now))
                      = healthErrorCount (health L) + 1))
    \<and> (if success
        then successCount u' = successCount u + 1 \<and> errorCount u' = errorCount u
        else successCount u' = successCount u \<and> errorCount u' = errorCount u + 1)"
proof (cases success)
  case True
  then show ?thesis
    using recordRequest_user [OF assms, of True now] recordRequest_health [OF assms, of True now]
    by (simp add: tierStep_requests)
next
  case False
  then show ?thesis
    using recordRequest_user [OF assms, of False now] recordRequest_health [OF assms, of False now]
    by (simp add: tierStep_requests)
qed

theorem recordRequest_ema_witness:
  "userLimits staleLimiter ''u1'' = Some newUserRecord
   \<and> successRate (health (recordRequest staleLimiter ''u1'' True 1000)) = 0.55
   \<and> successRate (health (recordRequest staleLimiter ''u1'' False 1000)) = 0.5"
  using recordRequest_ema [of staleLimiter "''u1''" newUserRecord True 1000]
        recordRequest_ema [of staleLimiter "''u1''" newUserRecord False 1000]
  by (auto simp add: staleLimiter_def)

text \<open>A failure recorded at time 3,600,001 on a snapshot of time 0 moves the rate from 0.5
  to 1.\<close>

theorem recordRequest_ema_counterexample:
  "successRate (health staleLimiter) = 0.5
   \<and> successRate (health (recordRequest staleLimiter ''u1'' False 3600001)) = 1"
  by (simp add: staleLimiter_def recordRequest_def Let_def updateApiHealth_def updateUserTier_def)

subsection \<open>The allow-check\<close>

lemma getUserLimit_existing:
  "userLimits L uid = Some u \<Longrightarrow> snd (getUserLimit L uid) = L"
  by (simp add: getUserLimit_def Let_def)

lemma recordRequest_window:
  "userLimits L uid = Some u \<Longrightarrow>
   \<exists>u'. userLimits (recordRequest L uid success now) uid = Some u'
     \<and> requests u' = requests u \<and> lastRequest u' = lastRequest u"
  using recordRequest_user [of L uid u success now] by (simp add: tierStep_requests)

text \<open>
  Claim C2 says that the limiter counts in fixed windows: the start of the window moves
  only when the window has passed, an allowed request leaves it unchanged, and a denial
  returns \<open>retryAfter = windowDuration - (now - windowStartedAt)\<close>. The code keeps the
  time of the last allowed request in \<open>lastRequest\<close> and sets it to \<open>now\<close> on every
  allowed request; \<open>retryAfter\<close> is in seconds, rounded up. What holds, for a user with a
  record: the counter is reset to 0 when \<open>now - lastRequest > window\<close>; when the counter
  is then below the limit, the request is allowed, the counter grows by one and
  \<open>lastRequest\<close> becomes \<open>now\<close>; otherwise the request is denied, the counter and
  \<open>lastRequest\<close> stay as they are after the reset check, and \<open>retryAfter\<close> is
  \<open>(window - (now - lastRequest)) / 1000\<close> rounded up.
\<close>

theorem isRequestAllowed_window:
  assumes "userLimits L uid = Some u"
  shows "\<exists>u'. userLimits (snd (isRequestAllowed L uid now)) uid = Some u'
    \<and> (let lim = fst (getUserLimit L uid);
            expired = (now - lastRequest u > window lim);
            inWindow = (if expired then 0 else requests u);
            start = (if expired then now else lastRequest u)
        in if int inWindow < limitRequests lim
           then fst (isRequestAllowed L uid now)
                  = Inr \<lparr>allowed = True, remaining = limitRequests lim - int inWindow - 1,
                         retryAfter = None\<rparr>
              \<and> requests u' = inWindow + 1 \<and> lastRequest u' = now
           else fst (isRequestAllowed L uid now)
                  = Inr \<lparr>allowed = False, remaining = 0,
                         retryAfter = Some \<lceil>real_of_int (window lim - (now - start)) / 1000\<rceil>\<rparr>
              \<and> requests u' = inWindow \<and> lastRequest u' = start)"
proof -
  obtain lim where lim: "getUserLimit L uid = (lim, L)"
    using getUserLimit_existing [OF assms] by (cases "getUserLimit L uid") simp
  define user1 where "user1 = (if now - lastRequest u > window lim
                          then u\<lparr>requests := 0, lastRequest := now\<rparr> else u)"
  show ?thesis
  proof (cases "int (requests user1) < limitRequests lim")
    case True
    define user2 where "user2 = user1\<lparr>requests := requests user1 + 1, lastRequest := now\<rparr>"
    define L2 where "L2 = L\<lparr>userLimits := (userLimits L)(uid \<mapsto> user2)\<rparr>"
    have "userLimits L2 uid = Some user2" by (simp add: L2_def)
    then obtain u' where u': "userLimits (recordRequest L2 uid True now) uid = Some u'"
      "requests u' = requests user2" "lastRequest u' = lastRequest user2"
      using recordRequest_window by blast
    have r: "isRequestAllowed L uid now =
        (Inr \<lparr>allowed = True, remaining = limitRequests lim - int (requests user2),
               retryAfter = None\<rparr>, recordRequest L2 uid True now)"
      using True assms unfolding user1_def user2_def L2_def
      by (simp add: isRequestAllowed_def lim Let_def)
    show ?thesis
      using True u' by (auto simp: r lim Let_def user1_def user2_def)
  next
    case False
    define L2 where "L2 = L\<lparr>userLimits := (userLimits L)(uid \<mapsto> user1)\<rparr>"
    have "userLimits L2 uid = Some user1" by (simp add: L2_def)
    then obtain u' where u': "userLimits (recordRequest L2 uid False now) uid = Some u'"
      "requests u' = requests user1" "lastRequest u' = lastRequest user1"
      using recordRequest_window by blast
    have r: "isRequestAllowed L uid now =
        (Inr \<lparr>allowed = False, remaining = 0,
               retryAfter = Some \<lceil>real_of_int (window lim - (now - lastRequest user1)) / 1000\<rceil>\<rparr>,
         recordRequest L2 uid False now)"
      using False assms unfolding user1_def L2_def
      by (simp add: isRequestAllowed_def lim Let_def)
    show ?thesis
      using False u' by (auto simp: r lim Let_def user1_def)
  qed
qed

lemma busyLimiter_limit:
  "fst (getUserLimit (busyLimiter n) ''u1'')
     = \<lparr>limitRequests = 5, window = 60000, limitTier = NewUser, healthMultiplier = 1\<rparr>"
  by (simp add: busyLimiter_def getUserLimit_def Let_def newUserRecord_def
      getHealthMultiplier_def)

lemma busyLimiter_user:
  "userLimits (busyLimiter n) ''u1'' = Some (newUserRecord\<lparr>requests := n, lastRequest := 1000\<rparr>)"
  by (simp add: busyLimiter_def)

theorem isRequestAllowed_window_witness:
  "userLimits (busyLimiter 1) ''u1'' = Some (newUserRecord\<lparr>requests := 1, lastRequest := 1000\<rparr>)
   \<and> fst (isRequestAllowed (busyLimiter 1) ''u1'' 2000)
       = Inr \<lparr>allowed = True, remaining = 3, retryAfter = None\<rparr>
   \<and> fst (isRequestAllowed (busyLimiter 5) ''u1'' 2000)
       = Inr \<lparr>allowed = False, remaining = 0, retryAfter = Some 59\<rparr>"
  using isRequestAllowed_window [OF busyLimiter_user [of 1], of 2000]
        isRequestAllowed_window [OF busyLimiter_user [of 5], of 2000]
  by (auto simp: busyLimiter_limit busyLimiter_user Let_def newUserRecord_def)

text \<open>At time 2000, inside the window that started at time 1000: an allowed request moves
  \<open>lastRequest\<close> from 1000 to 2000, and the denial of a sixth request returns
  \<open>retryAfter = 59\<close> (seconds), where \<open>window - (now - lastRequest)\<close> is 59,000.\<close>

theorem isRequestAllowed_window_counterexample:
  "map_option lastRequest (userLimits (busyLimiter 1) ''u1'') = Some 1000
   \<and> fst (isRequestAllowed (busyLimiter 1) ''u1'' 2000)
       = Inr \<lparr>allowed = True, remaining = 3, retryAfter = None\<rparr>
   \<and> map_option lastRequest (userLimits (snd (isRequestAllowed (busyLimiter 1) ''u1'' 2000)) ''u1'')
       = Some 2000
   \<and> fst (isRequestAllowed (busyLimiter 5) ''u1'' 2000)
       = Inr \<lparr>allowed = False, remaining = 0, retryAfter = Some 59\<rparr>"
  by (simp add: isRequestAllowed_def busyLimiter_def getUserLimit_def Let_def newUserRecord_def
      getHealthMultiplier_def recordRequest_def updateUserTier_def updateApiHealth_def
      upgradeTier_def downgradeTier_def)

subsection \<open>Promotion\<close>

lemma tierStep_newUser:
  assumes "tier v = NewUser" and "0 < successCount v + errorCount v"
  shows "tier (downgradeTier (upgradeTier v)) =
     (if qualifies (successCount v) (successCount v + errorCount v) then Regular else NewUser)"
proof -
  have rate: "successRateOf v
      = Some (real (successCount v) / real (successCount v + errorCount v))"
    using assms(2) by (simp add: successRateOf_def)
  show ?thesis
  proof (cases "qualifies (successCount v) (successCount v + errorCount v)")
    case True
    then have up: "upgradeTier v = v\<lparr>tier := Regular, upgradeEligible := False\<rparr>"
      using assms(1) rate by (simp add: upgradeTier_def Let_def rateAtLeast_def qualifies_def)
    have "successRateOf (v\<lparr>tier := Regular, upgradeEligible := False\<rparr>) = successRateOf v"
      by (simp add: successRateOf_def)
    then have "\<not> rateBelow (successRateOf (v\<lparr>tier := Regular, upgradeEligible := False\<rparr>)) 0.7"
      using True rate by (simp add: rateBelow_def qualifies_def)
    then have "downgradeTier (v\<lparr>tier := Regular, upgradeEligible := False\<rparr>)
        = v\<lparr>tier := Regular, upgradeEligible := False\<rparr>"
      by (simp add: downgradeTier_def Let_def)
    with up True show ?thesis by simp
  next
    case False
    then have "\<not> (successCount v + errorCount v \<ge> 50 \<and> rateAtLeast (successRateOf v) 0.9)"
      using rate by (simp add: rateAtLeast_def qualifies_def)
    then have up: "upgradeTier v = v"
      using assms(1) by (auto simp: upgradeTier_def Let_def)
    have "downgradeTier v = v"
      using assms(1) by (simp add: downgradeTier_def Let_def)
    with up False assms(1) show ?thesis by simp
  qed
qed

lemma recordRequest_newUser:
  assumes "userLimits L uid = Some u" and "tier u = NewUser"
  shows "\<exists>u'. userLimits (recordRequest L uid b now) uid = Some u'
    \<and> successCount u' = successCount u + (if b then 1 else 0)
    \<and> errorCount u' = errorCount u + (if b then 0 else 1)
    \<and> tier u' = (if qualifies (successCount u') (successCount u' + errorCount u')
                  then Regular else NewUser)"
proof -
  define v where "v = (if b then u\<lparr>successCount := successCount u + 1\<rparr>
        else u\<lparr>errorCount := errorCount u + 1\<rparr>)"
  have v: "tier v = NewUser" "0 < successCount v + errorCount v"
    "successCount v = successCount u + (if b then 1 else 0)"
    "errorCount v = errorCount u + (if b then 0 else 1)"
    using assms(2) by (simp_all add: v_def)
  have "userLimits (recordRequest L uid b now) uid = Some (downgradeTier (upgradeTier v))"
    using recordRequest_user [OF assms(1), of b now] by (simp add: v_def)
  moreover have "successCount (downgradeTier (upgradeTier v)) = successCount v"
    and "errorCount (downgradeTier (upgradeTier v)) = errorCount v"
    by (simp_all add: tierStep_requests)
  ultimately show ?thesis
    using tierStep_newUser [OF v(1) v(2)] v(3) v(4) by simp
qed

lemma recordAll_snoc:
  "recordAll L uid (os @ [x]) = recordRequest (recordAll L uid os) uid (fst x) (snd x)"
  by (induction os arbitrary: L) simp_all

lemma recordAll_stays_newUser:
  assumes "userLimits L uid = Some u0" and "tier u0 = NewUser"
  shows "(\<forall>j. 1 \<le> j \<and> j \<le> length os \<longrightarrow>
            \<not> qualifies (successCount u0 + length (filter fst (take j os)))
                 (successCount u0 + errorCount u0 + j)) \<Longrightarrow>
     \<exists>u. userLimits (recordAll L uid os) uid = Some u \<and> tier u = NewUser
       \<and> successCount u = successCount u0 + length (filter fst os)
       \<and> successCount u + errorCount u = successCount u0 + errorCount u0 + length os"
proof (induction os rule: rev_induct)
  case Nil
  with assms show ?case by simp
next
  case (snoc x os)
  have "\<forall>j. 1 \<le> j \<and> j \<le> length os \<longrightarrow>
            \<not> qualifies (successCount u0 + length (filter fst (take j os)))
                 (successCount u0 + errorCount u0 + j)"
  proof (intro allI impI)
    fix j assume j: "1 \<le> j \<and> j \<le> length os"
    then have "1 \<le> j \<and> j \<le> length (os @ [x])" by simp
    then have "\<not> qualifies (successCount u0 + length (filter fst (take j (os @ [x]))))
                 (successCount u0 + errorCount u0 + j)"
      using snoc.prems by blast
    with j show "\<not> qualifies (successCount u0 + length (filter fst (take j os)))
                 (successCount u0 + errorCount u0 + j)" by simp
  qed
  then obtain u where u: "userLimits (recordAll L uid os) uid = Some u" "tier u = NewUser"
      "successCount u = successCount u0 + length (filter fst os)"
      "successCount u + errorCount u = successCount u0 + errorCount u0 + length os"
    using snoc.IH by blast
  obtain u' where u': "userLimits (recordRequest (recordAll L uid os) uid (fst x) (snd x)) uid = Some u'"
      "successCount u' = successCount u + (if fst x then 1 else 0)"
      "errorCount u' = errorCount u + (if fst x then 0 else 1)"
      "tier u' = (if qualifies (successCount u') (successCount u' + errorCount u')
                  then Regular else NewUser)"
    using recordRequest_newUser [OF u(1) u(2), of "fst x" "snd x"] by blast
  have s: "successCount u' = successCount u0 + length (filter fst (os @ [x]))"
    using u' u by simp
  have t: "successCount u' + errorCount u' = successCount u0 + errorCount u0 + length (os @ [x])"
    using u' u by simp
  have "\<not> qualifies (successCount u0 + length (filter fst (take (length (os @ [x])) (os @ [x]))))
                 (successCount u0 + errorCount u0 + length (os @ [x]))"
  proof -
    have "1 \<le> length (os @ [x]) \<and> length (os @ [x]) \<le> length (os @ [x])" by simp
    then show ?thesis using snoc.prems by blast
  qed
  moreover have "take (length (os @ [x])) (os @ [x]) = os @ [x]" by simp
  ultimately have "\<not> qualifies (successCount u0 + length (filter fst (os @ [x])))
                 (successCount u0 + errorCount u0 + length (os @ [x]))"
    by metis
  then have nq: "\<not> qualifies (successCount u') (successCount u' + errorCount u')"
    using s t by metis
  have "tier u' = NewUser" using u'(4) nq by metis
  moreover have "userLimits (recordAll L uid (os @ [x])) uid = Some u'"
    using u'(1) by (simp only: recordAll_snoc)
  ultimately show ?case using s t by blast
qed

text \<open>
  Claim C8: a user at tier \<open>newUser\<close> moves to \<open>regular\<close> at the first recorded outcome
  at which the total of outcomes is at least 50 and the success rate is at least 0.9, and
  is at \<open>newUser\<close> after every earlier outcome. The user starts with any counters
  \<open>successCount u0\<close> and \<open>errorCount u0\<close>; after \<open>j\<close> outcomes of the list \<open>os\<close> the
  number of successes is \<open>successCount u0\<close> plus the successes among the first \<open>j\<close>
  outcomes, and the total is \<open>successCount u0 + errorCount u0 + j\<close>. When no outcome
  before the \<open>k\<close>-th qualifies, the tier is \<open>newUser\<close> after each of them, and after the
  \<open>k\<close>-th outcome it is \<open>regular\<close> if that outcome qualifies and \<open>newUser\<close> if not. An
  instance is the user with 45 successes and 5 failures among 50 outcomes.
\<close>

theorem promotion_first:
  assumes "userLimits L uid = Some u0" and "tier u0 = NewUser"
    and "1 \<le> k" and "k \<le> length os"
    and "\<forall>j. 1 \<le> j \<and> j < k \<longrightarrow>
            \<not> qualifies (successCount u0 + length (filter fst (take j os)))
                 (successCount u0 + errorCount u0 + j)"
  shows "(\<forall>j < k. map_option tier (userLimits (recordAll L uid (take j os)) uid) = Some NewUser)
    \<and> map_option tier (userLimits (recordAll L uid (take k os)) uid)
        = Some (if qualifies (successCount u0 + length (filter fst (take k os)))
                     (successCount u0 + errorCount u0 + k)
                then Regular else NewUser)"
proof -
  have before: "\<exists>u. userLimits (recordAll L uid (take j os)) uid = Some u \<and> tier u = NewUser
       \<and> successCount u = successCount u0 + length (filter fst (take j os))
       \<and> successCount u + errorCount u = successCount u0 + errorCount u0 + length (take j os)"
    if "j < k" for j
  proof (rule recordAll_stays_newUser [OF assms(1) assms(2)], intro allI impI)
    fix i assume i: "1 \<le> i \<and> i \<le> length (take j os)"
    then have "i \<le> j" and "i < k" using that by simp_all
    then have "\<not> qualifies (successCount u0 + length (filter fst (take i os)))
                 (successCount u0 + errorCount u0 + i)"
      using assms(5) i by blast
    moreover have "take i (take j os) = take i os"
      using \<open>i \<le> j\<close> by (simp add: min_def)
    ultimately show "\<not> qualifies (successCount u0 + length (filter fst (take i (take j os))))
                 (successCount u0 + errorCount u0 + i)" by simp
  qed
  have first: "\<forall>j < k. map_option tier (userLimits (recordAll L uid (take j os)) uid) = Some NewUser"
    using before by fastforce
  obtain m where m: "k = Suc m" using assms(3) by (cases k) simp_all
  then have lt: "m < length os" using assms(4) by simp
  obtain u where u: "userLimits (recordAll L uid (take m os)) uid = Some u" "tier u = NewUser"
      "successCount u = successCount u0 + length (filter fst (take m os))"
      "successCount u + errorCount u = successCount u0 + errorCount u0 + length (take m os)"
    using before [of m] m by blast
  have tk: "take k os = take m os @ [os ! m]"
    using lt m by (simp add: take_Suc_conv_app_nth)
  obtain u' where u': "userLimits (recordRequest (recordAll L uid (take m os)) uid
                          (fst (os ! m)) (snd (os ! m))) uid = Some u'"
      "successCount u' = successCount u + (if fst (os ! m) then 1 else 0)"
      "errorCount u' = errorCount u + (if fst (os ! m) then 0 else 1)"
      "tier u' = (if qualifies (successCount u') (successCount u' + errorCount u')
                  then Regular else NewUser)"
    using recordRequest_newUser [OF u(1) u(2), of "fst (os ! m)" "snd (os ! m)"] by blast
  have s: "successCount u' = successCount u0 + length (filter fst (take k os))"
    using u' u tk by simp
  have t: "successCount u' + errorCount u' = successCount u0 + errorCount u0 + k"
    using u' u lt m by simp
  have "tier u' = (if qualifies (successCount u0 + length (filter fst (take k os)))
                     (successCount u0 + errorCount u0 + k)
                then Regular else NewUser)"
    using u'(4) s t by metis
  moreover have "userLimits (recordAll L uid (take k os)) uid = Some u'"
    using u'(1) by (simp only: tk recordAll_snoc)
  ultimately have "map_option tier (userLimits (recordAll L uid (take k os)) uid)
        = Some (if qualifies (successCount u0 + length (filter fst (take k os)))
                     (successCount u0 + errorCount u0 + k)
                then Regular else NewUser)"
    by simp
  with first show ?thesis by blast
qed

theorem promotion_first_witness:
  "userLimits freshLimiter ''u1'' = Some newUserRecord \<and> tier newUserRecord = NewUser
   \<and> map_option tier (userLimits (recordAll freshLimiter ''u1''
        (take 49 (replicate 45 (True, 0) @ replicate 5 (False, 0)))) ''u1'') = Some NewUser
   \<and> map_option tier (userLimits (recordAll freshLimiter ''u1''
        (take 50 (replicate 45 (True, 0) @ replicate 5 (False, 0)))) ''u1'') = Some Regular"
proof -
  have a: "userLimits freshLimiter ''u1'' = Some newUserRecord"
    by (simp add: freshLimiter_def)
  have b: "tier newUserRecord = NewUser" by (simp add: newUserRecord_def)
  have c: "\<forall>j. 1 \<le> j \<and> j < 50 \<longrightarrow>
            \<not> qualifies (successCount newUserRecord
                 + length (filter fst (take j (replicate 45 (True, 0::int) @ replicate 5 (False, 0)))))
                 (successCount newUserRecord + errorCount newUserRecord + j)"
    by (simp add: qualifies_def newUserRecord_def)
  have d: "qualifies (successCount newUserRecord
                 + length (filter fst (take 50 (replicate 45 (True, 0::int) @ replicate 5 (False, 0)))))
                 (successCount newUserRecord + errorCount newUserRecord + 50)"
    by (simp add: qualifies_def newUserRecord_def)
  have e: "(1::nat) \<le> 50" by simp
  have f: "50 \<le> length (replicate 45 (True, 0::int) @ replicate 5 (False, 0))" by simp
  note T = promotion_first [OF a b e f c]
  have g: "map_option tier (userLimits (recordAll freshLimiter ''u1''
        (take 49 (replicate 45 (True, 0) @ replicate 5 (False, 0)))) ''u1'') = Some NewUser"
    using T [THEN conjunct1, rule_format, of 49] by simp
  have h: "map_option tier (userLimits (recordAll freshLimiter ''u1''
        (take 50 (replicate 45 (True, 0) @ replicate 5 (False, 0)))) ''u1'') = Some Regular"
    using T [THEN conjunct2] d by (simp only: if_True)
  show ?thesis using a b g h by blast
qed

end
